theory Spec2Isabelle
  imports Main "HOL-Library.Log_Nat" "HOL-Library.Multiset"
begin

section \<open>JavaScript numbers\<close>

text \<open>
  The client sums the amounts with JavaScript's \<open>+=\<close> and \<open>-=\<close>, that is with IEEE 754
  binary64 arithmetic, rounding to nearest, ties to even. Every finite binary64 value is an
  integer multiple of \<open>2\<^sup>-\<^sup>1\<^sup>0\<^sup>7\<^sup>4\<close>, so a finite number is stored here as that integer:
  \<open>Finite k\<close> stands for \<open>k * 2\<^sup>-\<^sup>1\<^sup>0\<^sup>7\<^sup>4\<close>, and the JavaScript number \<open>1\<close> is
  \<open>Finite (2 ^ 1074)\<close>. The two zeros of binary64 are one value here: they are equal
  under \<open>==\<close> and \<open>===\<close> and sums and differences do not tell them apart.
\<close>

datatype number = Finite int | PosInf | NegInf | NaN

text \<open>
  Rounding of an exact result to binary64: at most 53 significant bits are kept, a result
  of magnitude \<open>2\<^sup>1\<^sup>0\<^sup>2\<^sup>4\<close> or more (here \<open>2 ^ 2098\<close>) becomes an infinity.
\<close>

definition round_half_even :: "int \<Rightarrow> int \<Rightarrow> int" where
  "round_half_even k d =
     (let q = k div d; r = k mod d
      in if 2 * r < d then q
         else if d < 2 * r then q + 1
         else if even q then q else q + 1)"

definition round53 :: "int \<Rightarrow> number" where
  "round53 k =
     (let s = bitlen \<bar>k\<bar> - 53
      in if s \<le> 0 then Finite k
         else let d = 2 ^ nat s; v = round_half_even k d * d
              in if 2 ^ 2098 \<le> v then PosInf
                 else if v \<le> - (2 ^ 2098) then NegInf
                 else Finite v)"

fun neg :: "number \<Rightarrow> number" where
  "neg (Finite k) = Finite (- k)"
| "neg PosInf = NegInf"
| "neg NegInf = PosInf"
| "neg NaN = NaN"

fun add :: "number \<Rightarrow> number \<Rightarrow> number" where
  "add NaN _ = NaN"
| "add _ NaN = NaN"
| "add (Finite a) (Finite b) = round53 (a + b)"
| "add PosInf NegInf = NaN"
| "add NegInf PosInf = NaN"
| "add PosInf _ = PosInf"
| "add NegInf _ = NegInf"
| "add _ PosInf = PosInf"
| "add _ NegInf = NegInf"

definition sub :: "number \<Rightarrow> number \<Rightarrow> number" where
  "sub a b = add a (neg b)"

text \<open>JavaScript's \<open>==\<close> on two numbers: \<open>NaN\<close> equals nothing, itself included.\<close>

definition js_eq :: "number \<Rightarrow> number \<Rightarrow> bool" where
  "js_eq a b = (a \<noteq> NaN \<and> b \<noteq> NaN \<and> a = b)"

text \<open>\<open>dbl m e\<close> is the number \<open>m * 2\<^sup>e\<close>, for \<open>e\<close> from \<open>-1074\<close> up.\<close>

definition dbl :: "int \<Rightarrow> int \<Rightarrow> number" where
  "dbl m e = Finite (m * 2 ^ nat (e + 1074))"

section \<open>Transactions\<close>

text \<open>
  A field of a document that holds a number: not there at all, \<open>null\<close>, or a number.
\<close>

datatype 'a field = Absent | Null | Val 'a

text \<open>
  The fields that a stored document and a list entry on the client share
  (\<open>expenseSchema\<close> of \<^verbatim>\<open>server.js\<close>: \<open>title: String, amount: Number, type: String,
  category: String\<close>, none of them required). For the three strings \<open>None\<close> is an absent
  field.
\<close>

record payload =
  title :: "string option"
  amount :: "number field"
  type :: "string option"
  category :: "string option"

text \<open>
  An \<open>ObjectId\<close> is twelve bytes, here the number they spell. In a path or a token it is
  written as 24 hexadecimal digits, in either case. \<open>castObjectId\<close> is the cast that
  Mongoose applies to a string where the schema or the query wants an \<open>ObjectId\<close>: it
  takes a string of 24 hexadecimal digits and refuses any other with a \<open>CastError\<close>, here
  \<open>None\<close>. (Drivers before BSON 6 also took any string of twelve characters.)
\<close>

datatype objectId = ObjectId nat

definition hex_digit :: "char \<Rightarrow> nat option" where
  "hex_digit c = map_of
     [(CHR ''0'', 0), (CHR ''1'', 1), (CHR ''2'', 2), (CHR ''3'', 3), (CHR ''4'', 4),
      (CHR ''5'', 5), (CHR ''6'', 6), (CHR ''7'', 7), (CHR ''8'', 8), (CHR ''9'', 9),
      (CHR ''a'', 10), (CHR ''b'', 11), (CHR ''c'', 12), (CHR ''d'', 13), (CHR ''e'', 14),
      (CHR ''f'', 15), (CHR ''A'', 10), (CHR ''B'', 11), (CHR ''C'', 12), (CHR ''D'', 13),
      (CHR ''E'', 14), (CHR ''F'', 15)] c"

fun hex_value :: "nat \<Rightarrow> string \<Rightarrow> nat option" where
  "hex_value acc [] = Some acc"
| "hex_value acc (c # cs) =
     (case hex_digit c of None \<Rightarrow> None | Some d \<Rightarrow> hex_value (16 * acc + d) cs)"

definition castObjectId :: "string \<Rightarrow> objectId option" where
  "castObjectId s = (if length s = 24 then map_option ObjectId (hex_value 0 s) else None)"

text \<open>
  A stored document: \<open>oid\<close> is the \<open>_id\<close>, \<open>userId\<close> the owner, \<open>date\<close> the timestamp in
  milliseconds since the epoch.
\<close>

record expense = payload +
  oid :: objectId
  userId :: objectId
  date :: int

section \<open>Client aggregation engine\<close>

text \<open>
  What the client reads off a \<open>Date\<close> object, all in the browser's time zone:
  \<open>toDateString()\<close>, \<open>getMonth()\<close> and \<open>getFullYear()\<close>.
\<close>

record jsdate =
  toDateString :: string
  getMonth :: int
  getFullYear :: int

text \<open>
  \<open>timeFilteredExpenses\<close>. \<open>newDate\<close> is the \<open>Date\<close> constructor in the browser's time zone,
  applied to a timestamp; \<open>nowMs\<close> is the time of the call (\<open>new Date()\<close>).
\<close>

definition timeFilteredExpenses ::
  "(int \<Rightarrow> jsdate) \<Rightarrow> int \<Rightarrow> string \<Rightarrow> expense list \<Rightarrow> expense list" where
  "timeFilteredExpenses newDate nowMs timeRange expenses =
     (let now = newDate nowMs
      in filter (\<lambda>item.
           let itemDate = newDate (date item)
           in if timeRange = ''daily'' then toDateString itemDate = toDateString now
              else if timeRange = ''monthly''
                then getMonth itemDate = getMonth now \<and> getFullYear itemDate = getFullYear now
              else if timeRange = ''yearly'' then getFullYear itemDate = getFullYear now
              else True) expenses)"

record totals =
  totalBalance :: number
  totalIncome :: number
  totalExpense :: number
  totalInvested :: number
  totalWithdrawn :: number

text \<open>
  \<open>Number(curr.amount)\<close>: an absent amount is \<open>undefined\<close>, and \<open>Number(undefined)\<close> is
  \<open>NaN\<close>; \<open>Number(null)\<close> is \<open>0\<close>; a number is itself.
\<close>

definition Number :: "number field \<Rightarrow> number" where
  "Number a = (case a of Absent \<Rightarrow> NaN | Null \<Rightarrow> Finite 0 | Val n \<Rightarrow> n)"

text \<open>The reducer of \<open>stats\<close>: one \<open>switch\<close> on the type, the \<open>default\<close> branch does nothing.\<close>

definition stats_step :: "totals \<Rightarrow> expense \<Rightarrow> totals" where
  "stats_step acc cur =
     (let amt = Number (amount cur)
      in if type cur = Some ''income''
           then acc\<lparr>totalIncome := add (totalIncome acc) amt,
                    totalBalance := add (totalBalance acc) amt\<rparr>
         else if type cur = Some ''expense''
           then acc\<lparr>totalExpense := add (totalExpense acc) amt,
                    totalBalance := sub (totalBalance acc) amt\<rparr>
         else if type cur = Some ''investment''
           then acc\<lparr>totalInvested := add (totalInvested acc) amt,
                    totalBalance := sub (totalBalance acc) amt\<rparr>
         else if type cur = Some ''withdrawal''
           then acc\<lparr>totalWithdrawn := add (totalWithdrawn acc) amt,
                    totalBalance := add (totalBalance acc) amt\<rparr>
         else acc)"

definition stats_init :: totals where
  "stats_init = \<lparr>totalBalance = Finite 0, totalIncome = Finite 0, totalExpense = Finite 0,
     totalInvested = Finite 0, totalWithdrawn = Finite 0\<rparr>"

definition stats :: "expense list \<Rightarrow> totals" where
  "stats timeFiltered = foldl stats_step stats_init timeFiltered"

definition filteredList :: "string \<Rightarrow> expense list \<Rightarrow> expense list" where
  "filteredList filterCategory timeFiltered =
     (if filterCategory = ''All'' then timeFiltered
      else filter (\<lambda>e. category e = Some filterCategory) timeFiltered)"

text \<open>
  The derived view of one render: the totals and the displayed list, from the full list,
  the clock, the selected time range and the selected category.
\<close>

definition render ::
  "(int \<Rightarrow> jsdate) \<Rightarrow> int \<Rightarrow> string \<Rightarrow> string \<Rightarrow> expense list \<Rightarrow> totals \<times> expense list" where
  "render newDate nowMs timeRange filterCategory expenses =
     (let tf = timeFilteredExpenses newDate nowMs timeRange expenses
      in (stats tf, filteredList filterCategory tf))"

section \<open>Transaction API\<close>

text \<open>
  The collection of \<open>Expense\<close> documents, in insertion order. MongoDB keeps \<open>_id\<close> unique
  in a collection: \<open>unique_ids\<close> is that invariant.
\<close>

type_synonym store = "expense list"

definition unique_ids :: "store \<Rightarrow> bool" where
  "unique_ids st = distinct (map oid st)"

datatype resp_body =
  ErrorBody string
| MessageBody string
| ExpenseList "expense list"
| ExpenseDoc expense

record response =
  status :: nat
  body :: resp_body

text \<open>
  A promise rejected inside an \<open>async\<close> handler has no \<open>catch\<close> in the expense routes, so
  no response is sent: the outcome of a request is a response or the error. The errors are
  those of Mongoose: a \<open>ValidationError\<close> of \<open>save()\<close>, a \<open>CastError\<close> of a query, and the
  duplicate key error of an insert.
\<close>

datatype error = ValidationError | CastError | DuplicateKey

type_synonym outcome = "error + response"

definition json :: "nat \<Rightarrow> resp_body \<Rightarrow> outcome" where
  "json code b = Inr \<lparr>status = code, body = b\<rparr>"

text \<open>
  \<open>authMiddleware\<close>. \<open>verify\<close> is \<open>jwt.verify\<close> with the server's secret at the time of the
  request: \<open>None\<close> when it throws (bad signature, malformed or expired token), otherwise
  the \<open>id\<close> of the payload, which becomes \<open>req.user.id\<close> (the id of a user, as the login
  route signs no other payload). \<open>hdr\<close> is the \<open>Authorization\<close>
  header, \<open>None\<close> when the request has none; \<open>!token\<close> is true of a missing and of an
  empty header. \<open>next\<close> is the protected handler.
\<close>

definition authMiddleware ::
  "(string \<Rightarrow> objectId option) \<Rightarrow> string option \<Rightarrow> (objectId \<Rightarrow> 's \<Rightarrow> outcome \<times> 's) \<Rightarrow> 's
     \<Rightarrow> outcome \<times> 's" where
  "authMiddleware verify hdr next st =
     (case hdr of
        None \<Rightarrow> (json 401 (ErrorBody ''Access Denied''), st)
      | Some token \<Rightarrow>
          if token = [] then (json 401 (ErrorBody ''Access Denied''), st)
          else (case verify token of
                  None \<Rightarrow> (json 400 (ErrorBody ''Invalid Token''), st)
                | Some user \<Rightarrow> next user st))"

text \<open>\<open>Expense.find({ userId: req.user.id }).sort({ date: -1 })\<close>, then \<open>res.json\<close>.\<close>

definition find_by_user :: "objectId \<Rightarrow> store \<Rightarrow> expense list" where
  "find_by_user user st = filter (\<lambda>e. userId e = user) st"

definition sort_date_desc :: "expense list \<Rightarrow> expense list" where
  "sort_date_desc es = sort_key (\<lambda>e. - date e) es"

definition expenses_get :: "objectId \<Rightarrow> store \<Rightarrow> outcome \<times> store" where
  "expenses_get user st = (json 200 (ExpenseList (sort_date_desc (find_by_user user st))), st)"

definition GET_api_expenses ::
  "(string \<Rightarrow> objectId option) \<Rightarrow> string option \<Rightarrow> store \<Rightarrow> outcome \<times> store" where
  "GET_api_expenses verify hdr st = authMiddleware verify hdr expenses_get st"

text \<open>
  A value of a JSON body. \<open>JArray\<close> is any array, \<open>JObject\<close> any object without a member
  \<open>_id\<close>: Mongoose casts neither to a number.
\<close>

datatype json = JNull | JBool bool | JNum number | JStr string | JArray | JObject

text \<open>
  The body of a create request, as far as the schema reads it. Each member may be missing
  (\<open>None\<close>). The amount is any JSON value; so is the \<open>userId\<close> of the body, which is never
  read. \<open>title\<close>, \<open>type\<close> and \<open>category\<close> are strings and \<open>date\<close> is a timestamp: a
  body with another kind of value in one of these four is not a \<open>reqBody\<close>.
\<close>

record reqBody =
  body_title :: "string option"
  body_amount :: "json option"
  body_type :: "string option"
  body_category :: "string option"
  body_userId :: "json option"
  body_date :: "int option"

text \<open>
  The cast of Mongoose for a path of type \<open>Number\<close>; \<open>None\<close> is a failed cast. A missing
  value stays missing, \<open>null\<close> and the empty string give \<open>null\<close>, a string or a boolean goes
  through JavaScript's \<open>Number\<close> (\<open>toNumber\<close> on strings) and is refused when the result
  is \<open>NaN\<close>, arrays and objects are refused.
\<close>

definition castNumber :: "(string \<Rightarrow> number) \<Rightarrow> json option \<Rightarrow> number field option" where
  "castNumber toNumber v =
     (case v of
        None \<Rightarrow> Some Absent
      | Some JNull \<Rightarrow> Some Null
      | Some (JStr s) \<Rightarrow>
          if s = [] then Some Null
          else if toNumber s = NaN then None else Some (Val (toNumber s))
      | Some (JBool b) \<Rightarrow> Some (Val (if b then dbl 1 0 else Finite 0))
      | Some (JNum n) \<Rightarrow> if n = NaN then None else Some (Val n)
      | Some JArray \<Rightarrow> None
      | Some JObject \<Rightarrow> None)"

text \<open>
  \<open>new Expense({ ...req.body, userId: req.user.id })\<close>: the \<open>userId\<close> written after the
  spread replaces the one of the body; \<open>date\<close> defaults to \<open>Date.now\<close>; \<open>newId\<close> is the
  \<open>_id\<close> that the constructor generates. The constructor casts the amount; the result is
  \<open>None\<close> for a document that holds a failed cast.
\<close>

definition newExpense ::
  "(string \<Rightarrow> number) \<Rightarrow> int \<Rightarrow> objectId \<Rightarrow> objectId \<Rightarrow> reqBody \<Rightarrow> expense option" where
  "newExpense toNumber now newId user b =
     (case castNumber toNumber (body_amount b) of
        None \<Rightarrow> None
      | Some a \<Rightarrow>
          Some \<lparr>title = body_title b, amount = a, type = body_type b,
                category = body_category b, oid = newId, userId = user,
                date = (case body_date b of None \<Rightarrow> now | Some d \<Rightarrow> d)\<rparr>)"

text \<open>
  \<open>save()\<close>: validation first, which rejects a document that holds a failed cast with a
  \<open>ValidationError\<close> (\<open>userId\<close>, the one required path, is always there); then an insert,
  refused with a duplicate key error when the \<open>_id\<close> is taken.
\<close>

definition save :: "expense option \<Rightarrow> store \<Rightarrow> (error + expense) \<times> store" where
  "save doc st =
     (case doc of
        None \<Rightarrow> (Inl ValidationError, st)
      | Some e \<Rightarrow>
          if oid e \<in> set (map oid st) then (Inl DuplicateKey, st) else (Inr e, st @ [e]))"

definition expenses_post ::
  "(string \<Rightarrow> number) \<Rightarrow> int \<Rightarrow> objectId \<Rightarrow> reqBody \<Rightarrow> objectId \<Rightarrow> store
     \<Rightarrow> outcome \<times> store" where
  "expenses_post toNumber now newId b user st =
     (case save (newExpense toNumber now newId user b) st of
        (Inl err, st') \<Rightarrow> (Inl err, st')
      | (Inr saved, st') \<Rightarrow> (json 200 (ExpenseDoc saved), st'))"

definition POST_api_expenses ::
  "(string \<Rightarrow> objectId option) \<Rightarrow> (string \<Rightarrow> number) \<Rightarrow> int \<Rightarrow> objectId \<Rightarrow> string option
     \<Rightarrow> reqBody \<Rightarrow> store \<Rightarrow> outcome \<times> store" where
  "POST_api_expenses verify toNumber now newId hdr b st =
     authMiddleware verify hdr (expenses_post toNumber now newId b) st"

text \<open>
  \<open>Expense.findByIdAndDelete(req.params.id)\<close> casts the path parameter to an \<open>ObjectId\<close>
  and rejects with a \<open>CastError\<close> when that fails; otherwise it removes the document with
  that \<open>_id\<close>, the first one found, if there is one. The handler does not look at what it
  returns.
\<close>

fun remove_by_id :: "objectId \<Rightarrow> store \<Rightarrow> store" where
  "remove_by_id i [] = []"
| "remove_by_id i (e # es) = (if oid e = i then es else e # remove_by_id i es)"

definition findByIdAndDelete :: "string \<Rightarrow> store \<Rightarrow> (error + unit) \<times> store" where
  "findByIdAndDelete param st =
     (case castObjectId param of
        None \<Rightarrow> (Inl CastError, st)
      | Some i \<Rightarrow> (Inr (), remove_by_id i st))"

definition expenses_delete :: "string \<Rightarrow> objectId \<Rightarrow> store \<Rightarrow> outcome \<times> store" where
  "expenses_delete param user st =
     (case findByIdAndDelete param st of
        (Inl err, st') \<Rightarrow> (Inl err, st')
      | (Inr _, st') \<Rightarrow> (json 200 (MessageBody ''Deleted''), st'))"


text \<open>An outcome counts as a success when it is a response with status 200.\<close>

definition is_ok :: "outcome \<Rightarrow> bool" where
  "is_ok out = (case out of Inl _ \<Rightarrow> False | Inr r \<Rightarrow> status r = 200)"

definition status_of :: "outcome \<Rightarrow> nat option" where
  "status_of out = (case out of Inl _ \<Rightarrow> None | Inr r \<Rightarrow> Some (status r))"

section \<open>The balance formula\<close>

text \<open>
  \<open>totalIncome + totalWithdrawn - totalExpense - totalInvested\<close>, evaluated from left to
  right as JavaScript does.
\<close>

definition balance_formula :: "totals \<Rightarrow> number" where
  "balance_formula s =
     sub (sub (add (totalIncome s) (totalWithdrawn s)) (totalExpense s)) (totalInvested s)"

text \<open>
  The invariant of the running sums when no addition rounds: all five totals are multiples
  \<open>b, i, x, v, w\<close> of \<open>2 ^ j\<close>, the balance is the signed sum of the other four, and the
  four stay within \<open>M\<close> in absolute value.
\<close>

definition exact_totals :: "nat \<Rightarrow> int \<Rightarrow> totals \<Rightarrow> bool" where
  "exact_totals j M s =
     (\<exists>b i x v w.
        s = \<lparr>totalBalance = Finite (b * 2 ^ j), totalIncome = Finite (i * 2 ^ j),
             totalExpense = Finite (x * 2 ^ j), totalInvested = Finite (v * 2 ^ j),
             totalWithdrawn = Finite (w * 2 ^ j)\<rparr>
        \<and> b = i + w - x - v \<and> \<bar>i\<bar> + \<bar>x\<bar> + \<bar>v\<bar> + \<bar>w\<bar> \<le> M)"

section \<open>Sample data\<close>

text \<open>
  The \<open>Date\<close> constructor of a browser in UTC, on the timestamps of 1 January 1970
  (from \<open>0\<close> up to \<open>86399999\<close>), which are all that the samples use.
\<close>

definition utc_epoch_day :: "int \<Rightarrow> jsdate" where
  "utc_epoch_day ms = \<lparr>toDateString = ''Thu Jan 01 1970'', getMonth = 0, getFullYear = 1970\<rparr>"

definition sample_tx :: "string \<Rightarrow> string \<Rightarrow> number \<Rightarrow> expense" where
  "sample_tx ty cat a = \<lparr>title = Some ''sample'', amount = Val a, type = Some ty,
     category = Some cat, oid = ObjectId 100, userId = ObjectId 11, date = 0\<rparr>"

text \<open>
  Income \<open>0.1\<close>, expense \<open>0.3\<close>, income \<open>0.2\<close>: the three binary64 values are
  \<open>3602879701896397 * 2\<^sup>-\<^sup>5\<^sup>5\<close>, \<open>5404319552844595 * 2\<^sup>-\<^sup>5\<^sup>4\<close> and
  \<open>3602879701896397 * 2\<^sup>-\<^sup>5\<^sup>4\<close>.
\<close>

definition rounding_sample :: "expense list" where
  "rounding_sample =
     [sample_tx ''income'' ''Salary'' (dbl 3602879701896397 (- 55)),
      sample_tx ''expense'' ''Food'' (dbl 5404319552844595 (- 54)),
      sample_tx ''income'' ''Salary'' (dbl 3602879701896397 (- 54))]"

text \<open>Expense \<open>4.5\<close> for coffee and income \<open>2000\<close>, as \<open>9 * 2\<^sup>-\<^sup>1\<close> and \<open>4000 * 2\<^sup>-\<^sup>1\<close>.\<close>

definition coffee_paycheck :: "expense list" where
  "coffee_paycheck =
     [sample_tx ''expense'' ''Food'' (dbl 9 (- 1)),
      sample_tx ''income'' ''Salary'' (dbl 4000 (- 1))]"

definition sample_verify :: "string \<Rightarrow> objectId option" where
  "sample_verify token =
     (if token = ''token-u1'' then Some (ObjectId 11)
      else if token = ''token-u2'' then Some (ObjectId 12) else None)"

definition sample_doc :: "nat \<Rightarrow> nat \<Rightarrow> int \<Rightarrow> expense" where
  "sample_doc i u d = \<lparr>title = Some ''sample'', amount = Val (dbl 5 0), type = Some ''expense'',
     category = Some ''Food'', oid = ObjectId i, userId = ObjectId u, date = d\<rparr>"

definition sample_store :: store where
  "sample_store = [sample_doc 101 11 100, sample_doc 102 12 200, sample_doc 103 11 300]"

text \<open>
  JavaScript's \<open>Number\<close> on the strings that the samples use: \<open>4.5\<close>, and strings such as
  \<open>abc\<close> that spell no number.
\<close>

definition sample_toNumber :: "string \<Rightarrow> number" where
  "sample_toNumber s = (if s = ''4.5'' then dbl 9 (- 1) else NaN)"

text \<open>A body without title and amount, which carries the id of another user.\<close>

definition sample_body :: reqBody where
  "sample_body = \<lparr>body_title = None, body_amount = None, body_type = Some ''expense'',
     body_category = Some ''Food'', body_userId = Some (JStr ''00000000000000000000000c''),
     body_date = None\<rparr>"

section \<open>Properties of the aggregation engine\<close>

subsection \<open>Filters\<close>

lemma timeFiltered_append:
  "timeFilteredExpenses nd n r (xs @ ys) =
     timeFilteredExpenses nd n r xs @ timeFilteredExpenses nd n r ys"
  by (simp add: timeFilteredExpenses_def Let_def)

lemma timeFiltered_single:
  "timeFilteredExpenses nd n r [t] = [t] \<or> timeFilteredExpenses nd n r [t] = []"
  by (simp add: timeFilteredExpenses_def Let_def)

lemma timeFiltered_utc_epoch_day [simp]:
  "timeFilteredExpenses utc_epoch_day n r xs = xs"
  by (simp add: timeFilteredExpenses_def utc_epoch_day_def)

text \<open>
  C8. The time-range filter with range \<open>all\<close> returns the list unchanged, whatever the
  dates of the transactions, the time zone and the current time.
\<close>

theorem time_range_all_identity:
  "timeFilteredExpenses newDate nowMs ''all'' xs = xs"
  by (simp add: timeFilteredExpenses_def)

text \<open>
  C3. The totals are those of the time-filtered list and are the same for every category
  selector; the selector \<open>All\<close> displays the time-filtered list itself, any other selector
  exactly its transactions of that category.
\<close>

theorem totals_ignore_category:
  "fst (render nd n r c xs) = stats (timeFilteredExpenses nd n r xs)
   \<and> fst (render nd n r c xs) = fst (render nd n r c' xs)
   \<and> snd (render nd n r ''All'' xs) = timeFilteredExpenses nd n r xs
   \<and> (c \<noteq> ''All'' \<longrightarrow>
        snd (render nd n r c xs) =
          filter (\<lambda>e. category e = Some c) (timeFilteredExpenses nd n r xs))"
  by (simp add: render_def Let_def filteredList_def)

theorem totals_ignore_category_witness:
  "fst (render utc_epoch_day 0 ''monthly'' ''Food'' coffee_paycheck) = stats coffee_paycheck
   \<and> fst (render utc_epoch_day 0 ''monthly'' ''Food'' coffee_paycheck) =
       fst (render utc_epoch_day 0 ''monthly'' ''All'' coffee_paycheck)
   \<and> snd (render utc_epoch_day 0 ''monthly'' ''All'' coffee_paycheck) = coffee_paycheck
   \<and> ''Food'' \<noteq> ''All''
   \<and> snd (render utc_epoch_day 0 ''monthly'' ''Food'' coffee_paycheck) =
       [sample_tx ''expense'' ''Food'' (dbl 9 (- 1))]"
proof -
  have food: "filter (\<lambda>e. category e = Some ''Food'') coffee_paycheck =
      [sample_tx ''expense'' ''Food'' (dbl 9 (- 1))]"
    by (simp add: coffee_paycheck_def sample_tx_def)
  show ?thesis
    using totals_ignore_category [of utc_epoch_day 0 "''monthly''" "''Food''" coffee_paycheck
        "''All''"]
    by (simp add: food, simp add: render_def)
qed

subsection \<open>Totals\<close>

text \<open>
  C9. Over the empty list all five totals are zero, for every time range and category
  selector; the reducer is total, so nothing is raised.
\<close>

theorem stats_empty_zero:
  "fst (render newDate nowMs timeRange filterCategory []) =
     \<lparr>totalBalance = Finite 0, totalIncome = Finite 0, totalExpense = Finite 0,
      totalInvested = Finite 0, totalWithdrawn = Finite 0\<rparr>"
  by (simp add: render_def timeFilteredExpenses_def stats_def stats_init_def)

lemma stats_step_other:
  assumes "type t \<noteq> Some ''income''" "type t \<noteq> Some ''expense''"
    "type t \<noteq> Some ''investment''" "type t \<noteq> Some ''withdrawal''"
  shows "stats_step acc t = acc"
  using assms by (simp add: stats_step_def)

text \<open>
  C10. A transaction whose type is none of \<open>income\<close>, \<open>expense\<close>, \<open>investment\<close> and
  \<open>withdrawal\<close> (an absent type included) changes no total, wherever it is added to the list.
\<close>

theorem unknown_type_ignored:
  assumes "type t \<noteq> Some ''income''" "type t \<noteq> Some ''expense''"
    "type t \<noteq> Some ''investment''" "type t \<noteq> Some ''withdrawal''"
  shows "fst (render nd n r c (xs @ t # ys)) = fst (render nd n r c (xs @ ys))"
proof -
  have split: "timeFilteredExpenses nd n r (xs @ t # ys) =
      timeFilteredExpenses nd n r xs @ timeFilteredExpenses nd n r [t]
        @ timeFilteredExpenses nd n r ys"
    using timeFiltered_append [of nd n r xs "[t] @ ys"] timeFiltered_append [of nd n r "[t]" ys]
    by simp
  from timeFiltered_single [of nd n r t] show ?thesis
  proof
    assume "timeFilteredExpenses nd n r [t] = [t]"
    with split show ?thesis
      by (simp add: render_def stats_def Let_def timeFiltered_append stats_step_other [OF assms])
  next
    assume "timeFilteredExpenses nd n r [t] = []"
    with split show ?thesis
      by (simp add: render_def stats_def Let_def timeFiltered_append)
  qed
qed

theorem unknown_type_ignored_witness:
  "type (sample_tx ''transfer'' ''Savings'' (dbl 7 0)) \<noteq> Some ''income''
   \<and> type (sample_tx ''transfer'' ''Savings'' (dbl 7 0)) \<noteq> Some ''expense''
   \<and> type (sample_tx ''transfer'' ''Savings'' (dbl 7 0)) \<noteq> Some ''investment''
   \<and> type (sample_tx ''transfer'' ''Savings'' (dbl 7 0)) \<noteq> Some ''withdrawal''
   \<and> fst (render utc_epoch_day 0 ''daily'' ''All''
             (coffee_paycheck @ sample_tx ''transfer'' ''Savings'' (dbl 7 0) # rounding_sample)) =
       fst (render utc_epoch_day 0 ''daily'' ''All'' (coffee_paycheck @ rounding_sample))"
proof -
  have t: "type (sample_tx ''transfer'' ''Savings'' (dbl 7 0)) = Some ''transfer''"
    by (simp add: sample_tx_def)
  show ?thesis
    using unknown_type_ignored [of "sample_tx ''transfer'' ''Savings'' (dbl 7 0)" utc_epoch_day 0
        "''daily''" "''All''" coffee_paycheck rounding_sample]
    by (simp add: t)
qed

section \<open>Rounding and the balance identity\<close>

subsection \<open>When binary64 addition is exact\<close>

lemma bitlen_abs_le:
  assumes "\<bar>k\<bar> < 2 ^ n"
  shows "bitlen \<bar>k\<bar> \<le> int n"
  using assms by (simp add: bitlen_le_iff_power)

lemma round53_exact:
  assumes b: "\<bar>m\<bar> < 2 ^ 53" and j: "j \<le> 2045"
  shows "round53 (m * 2 ^ j) = Finite (m * 2 ^ j)"
proof -
  let ?k = "m * 2 ^ j"
  let ?s = "bitlen \<bar>?k\<bar> - 53"
  have kb: "\<bar>?k\<bar> < 2 ^ (53 + j)"
    using b by (simp add: abs_mult power_add)
  show ?thesis
  proof (cases "?s \<le> 0")
    case True
    then show ?thesis by (simp add: round53_def Let_def)
  next
    case False
    have "bitlen \<bar>?k\<bar> \<le> int (53 + j)" using kb by (rule bitlen_abs_le)
    then have sj: "nat ?s \<le> j" by simp
    then have dv: "(2::int) ^ nat ?s dvd ?k"
      by (simp add: le_imp_power_dvd)
    then have r: "round_half_even ?k (2 ^ nat ?s) = ?k div 2 ^ nat ?s"
      by (simp add: round_half_even_def Let_def mod_eq_0_iff_dvd)
    have v: "?k div 2 ^ nat ?s * 2 ^ nat ?s = ?k"
      using dv by simp
    have "(2::int) ^ (53 + j) \<le> 2 ^ 2098"
      using j by (intro power_increasing) simp_all
    with kb have "\<bar>?k\<bar> < 2 ^ 2098" by linarith
    then have "\<not> 2 ^ 2098 \<le> ?k" "\<not> ?k \<le> - (2 ^ 2098)" by linarith+
    with False show ?thesis
      unfolding round53_def Let_def r v by simp
  qed
qed

lemma round_half_even_scale:
  assumes "0 < c"
  shows "round_half_even (m * c) (d * c) = round_half_even m d"
proof -
  have 1: "(m * c) div (d * c) = m div d" using assms by simp
  have 2: "(m * c) mod (d * c) = (m mod d) * c" using assms by simp
  have 3: "2 * (m mod d * c) < d * c \<longleftrightarrow> 2 * (m mod d) < d"
    using assms by (metis mult.assoc mult_less_cancel_right_pos)
  have 4: "d * c < 2 * (m mod d * c) \<longleftrightarrow> d < 2 * (m mod d)"
    using assms by (metis mult.assoc mult_less_cancel_right_pos)
  show ?thesis
    unfolding round_half_even_def Let_def 1 2 3 4 ..
qed

lemma round_half_even_bounds:
  assumes "0 < d"
  shows "m div d \<le> round_half_even m d" and "round_half_even m d \<le> m div d + 1"
  by (simp_all add: round_half_even_def Let_def)

lemma int_div_less:
  fixes m d c :: int
  assumes "0 < d" "m < c * d"
  shows "m div d < c"
proof -
  have "m div d * d + m mod d = m" by simp
  moreover have "0 \<le> m mod d" using assms(1) by simp
  ultimately have "m div d * d \<le> m" by linarith
  with assms(2) have "m div d * d < c * d" by linarith
  with assms(1) show ?thesis by (simp add: mult_less_cancel_right_pos)
qed

lemma int_div_ge:
  fixes m d c :: int
  assumes "0 < d" "c * d \<le> m"
  shows "c \<le> m div d"
proof -
  have "m div d * d + m mod d = m" by simp
  moreover have "m mod d < d" using assms(1) by simp
  moreover have "(m div d + 1) * d = m div d * d + d" by (simp add: distrib_right)
  ultimately have "m < (m div d + 1) * d" by linarith
  with assms(2) have "c * d < (m div d + 1) * d" by linarith
  with assms(1) have "c < m div d + 1" by (simp add: mult_less_cancel_right_pos)
  then show ?thesis by simp
qed

lemma round53_round:
  assumes bl: "bitlen \<bar>m\<bar> = 53 + int t" and t: "0 < t" and j: "t + j \<le> 2044"
  shows "round53 (m * 2 ^ j) = Finite (round_half_even m (2 ^ t) * 2 ^ t * 2 ^ j)"
proof -
  let ?k = "m * 2 ^ j"
  from bl t have "bitlen \<bar>m\<bar> \<noteq> 0" by simp
  then have pos: "0 < \<bar>m\<bar>" by (simp add: bitlen_eq_zero_iff)
  have "\<bar>?k\<bar> = \<bar>m\<bar> * 2 ^ j" by (simp add: abs_mult)
  then have "bitlen \<bar>?k\<bar> = bitlen \<bar>m\<bar> + int j"
    using pos by simp
  then have s: "bitlen \<bar>?k\<bar> - 53 = int (t + j)" using bl by simp
  have d: "(2::int) ^ (t + j) = 2 ^ t * 2 ^ j" by (simp add: power_add)
  have r: "round_half_even ?k (2 ^ t * 2 ^ j) = round_half_even m (2 ^ t)"
    by (rule round_half_even_scale) simp
  let ?q = "round_half_even m (2 ^ t)"
  from bitlen_bounds[OF pos] bl have mb: "\<bar>m\<bar> < 2 ^ (53 + t)"
    by (simp add: nat_add_distrib)
  have p: "(2::int) ^ (53 + t) = 2 ^ 53 * 2 ^ t" by (simp add: power_add)
  have "m < 2 ^ 53 * 2 ^ t" using mb p by linarith
  then have "m div 2 ^ t < 2 ^ 53"
    by (intro int_div_less) simp_all
  then have ub: "?q \<le> 2 ^ 53"
    using round_half_even_bounds(2)[of "2 ^ t" m] by simp
  have "- (2 ^ 53) * 2 ^ t \<le> m" using mb p by linarith
  then have "- (2 ^ 53) \<le> m div 2 ^ t"
    by (intro int_div_ge) simp_all
  then have lb: "- (2 ^ 53) \<le> ?q"
    using round_half_even_bounds(1)[of "2 ^ t" m] by simp
  have "\<bar>?q\<bar> \<le> 2 ^ 53" using lb ub by linarith
  then have "\<bar>?q\<bar> * 2 ^ (t + j) \<le> 2 ^ 53 * 2 ^ (t + j)"
    by (intro mult_right_mono) simp_all
  also have "\<dots> = 2 ^ (53 + (t + j))" by (simp add: power_add)
  also have "\<dots> < (2::int) ^ 2098"
    using j by (intro power_strict_increasing) simp_all
  finally have "\<bar>?q * 2 ^ (t + j)\<bar> < 2 ^ 2098" by (simp add: abs_mult)
  then have nov: "\<not> 2 ^ 2098 \<le> ?q * (2 ^ t * 2 ^ j)" "\<not> ?q * (2 ^ t * 2 ^ j) \<le> - (2 ^ 2098)"
    unfolding d by linarith+
  have spos: "\<not> int (t + j) \<le> 0" using t by simp
  show ?thesis
    unfolding round53_def Let_def s nat_int d r using nov spos by (simp add: mult.assoc)
qed

subsection \<open>Sums and differences of numbers of one exponent\<close>

lemma dbl_up: "- 1074 \<le> e \<Longrightarrow> dbl m (e + 1) = dbl (2 * m) e"
proof -
  assume "- 1074 \<le> e"
  then have "nat (e + 1 + 1074) = Suc (nat (e + 1074))" by simp
  then show ?thesis by (simp add: dbl_def)
qed

lemma dbl_inj: "dbl a e = dbl b e \<longleftrightarrow> a = b"
  by (simp add: dbl_def)

lemma dbl_zero: "dbl 0 e = Finite 0"
  by (simp add: dbl_def)

lemma round53_dbl_exact:
  assumes "\<bar>m\<bar> < 2 ^ 53" "- 1074 \<le> e" "e \<le> 971"
  shows "round53 (m * 2 ^ nat (e + 1074)) = dbl m e"
  unfolding dbl_def using assms by (intro round53_exact) simp_all

lemma add_dbl_exact:
  assumes "\<bar>a + b\<bar> < 2 ^ 53" "- 1074 \<le> e" "e \<le> 971"
  shows "add (dbl a e) (dbl b e) = dbl (a + b) e"
proof -
  have "add (dbl a e) (dbl b e) = round53 ((a + b) * 2 ^ nat (e + 1074))"
    by (simp add: dbl_def distrib_right)
  then show ?thesis using assms by (simp only: round53_dbl_exact)
qed

lemma sub_dbl_exact:
  assumes "\<bar>a - b\<bar> < 2 ^ 53" "- 1074 \<le> e" "e \<le> 971"
  shows "sub (dbl a e) (dbl b e) = dbl (a - b) e"
proof -
  have "sub (dbl a e) (dbl b e) = round53 ((a - b) * 2 ^ nat (e + 1074))"
    by (simp add: sub_def dbl_def left_diff_distrib)
  then show ?thesis using assms by (simp only: round53_dbl_exact)
qed

lemma add_dbl_round:
  assumes lo: "2 ^ 53 \<le> \<bar>a + b\<bar>" and hi: "\<bar>a + b\<bar> < 2 ^ 54" and e: "- 1074 \<le> e" "e \<le> 969"
  shows "add (dbl a e) (dbl b e) = dbl (round_half_even (a + b) 2 * 2) e"
proof -
  have "bitlen \<bar>a + b\<bar> \<le> 54" using hi by (simp add: bitlen_le_iff_power)
  moreover have "54 \<le> bitlen \<bar>a + b\<bar>" using lo by (simp add: bitlen_ge_iff_power)
  ultimately have bl: "bitlen \<bar>a + b\<bar> = 53 + int 1" by simp
  have j: "1 + nat (e + 1074) \<le> 2044" using e by simp
  have "add (dbl a e) (dbl b e) = round53 ((a + b) * 2 ^ nat (e + 1074))"
    by (simp add: dbl_def distrib_right)
  also have "\<dots> = Finite (round_half_even (a + b) (2 ^ 1) * 2 ^ 1 * 2 ^ nat (e + 1074))"
    using bl j by (intro round53_round) simp_all
  finally show ?thesis by (simp add: dbl_def)
qed

lemma add_exact:
  assumes "\<bar>a + b\<bar> < 2 ^ 53" "j \<le> 2045"
  shows "add (Finite (a * 2 ^ j)) (Finite (b * 2 ^ j)) = Finite ((a + b) * 2 ^ j)"
proof -
  have "add (Finite (a * 2 ^ j)) (Finite (b * 2 ^ j)) = round53 ((a + b) * 2 ^ j)"
    by (simp add: distrib_right)
  then show ?thesis using assms by (simp only: round53_exact)
qed

lemma sub_exact:
  assumes "\<bar>a - b\<bar> < 2 ^ 53" "j \<le> 2045"
  shows "sub (Finite (a * 2 ^ j)) (Finite (b * 2 ^ j)) = Finite ((a - b) * 2 ^ j)"
proof -
  have "sub (Finite (a * 2 ^ j)) (Finite (b * 2 ^ j)) = round53 ((a - b) * 2 ^ j)"
    by (simp add: sub_def left_diff_distrib)
  then show ?thesis using assms by (simp only: round53_exact)
qed

subsection \<open>The totals of the rounding sample\<close>

lemma dbl_54_55: "dbl x (- 54) = dbl (2 * x) (- 55)"
  using dbl_up [of "- 55" x] by simp

lemma rounding_sample_stats:
  "stats rounding_sample =
     \<lparr>totalBalance = dbl 1 (- 55), totalIncome = dbl 5404319552844596 (- 54),
      totalExpense = dbl 5404319552844595 (- 54), totalInvested = Finite 0,
      totalWithdrawn = Finite 0\<rparr>"
proof -
  have i1: "add (Finite 0) (dbl 3602879701896397 (- 55)) = dbl 3602879701896397 (- 55)"
    using add_dbl_exact [of 0 3602879701896397 "- 55"] by (simp add: dbl_zero)
  have x1: "add (Finite 0) (dbl 5404319552844595 (- 54)) = dbl 5404319552844595 (- 54)"
    using add_dbl_exact [of 0 5404319552844595 "- 54"] by (simp add: dbl_zero)
  have b2: "sub (dbl 3602879701896397 (- 55)) (dbl 5404319552844595 (- 54)) =
      dbl (- 7205759403792793) (- 55)"
    using sub_dbl_exact [of 3602879701896397 10808639105689190 "- 55"] by (simp add: dbl_54_55)
  have r: "round_half_even 10808639105689191 2 = 5404319552844596"
    by (simp add: round_half_even_def)
  have i3: "add (dbl 3602879701896397 (- 55)) (dbl 3602879701896397 (- 54)) =
      dbl 5404319552844596 (- 54)"
    using add_dbl_round [of 3602879701896397 7205759403792794 "- 55"]
    by (simp add: r dbl_54_55)
  have b3: "add (dbl (- 7205759403792793) (- 55)) (dbl 3602879701896397 (- 54)) = dbl 1 (- 55)"
    using add_dbl_exact [of "- 7205759403792793" 7205759403792794 "- 55"]
    by (simp add: dbl_54_55)
  show ?thesis
    by (simp add: stats_def stats_init_def stats_step_def rounding_sample_def sample_tx_def
        Number_def Let_def i1 x1 b2 i3 b3 del: add.simps)
qed

lemma rounding_sample_formula: "balance_formula (stats rounding_sample) = dbl 1 (- 54)"
proof -
  have 1: "add (dbl 5404319552844596 (- 54)) (Finite 0) = dbl 5404319552844596 (- 54)"
    using add_dbl_exact [of 5404319552844596 0 "- 54"] by (simp add: dbl_zero)
  have 2: "sub (dbl 5404319552844596 (- 54)) (dbl 5404319552844595 (- 54)) = dbl 1 (- 54)"
    using sub_dbl_exact [of 5404319552844596 5404319552844595 "- 54"] by simp
  have 3: "sub (dbl 1 (- 54)) (Finite 0) = dbl 1 (- 54)"
    using sub_dbl_exact [of 1 0 "- 54"] by (simp add: dbl_zero)
  show ?thesis
    by (simp add: balance_formula_def rounding_sample_stats 1 2 3 del: add.simps)
qed

text \<open>
  C2 as stated fails, by rounding: for income \<open>0.1\<close>, expense \<open>0.3\<close>, income \<open>0.2\<close>, in this
  order, the running balance is \<open>(0.1 - 0.3) + 0.2 = 2\<^sup>-\<^sup>5\<^sup>5\<close>, while
  \<open>totalIncome + totalWithdrawn - totalExpense - totalInvested\<close> is
  \<open>(0.1 + 0.2) + 0 - 0.3 - 0 = 2\<^sup>-\<^sup>5\<^sup>4\<close>, and the two are not \<open>==\<close>.
\<close>

theorem balance_identity_rounding_counterexample:
  "\<not> js_eq (totalBalance (fst (render utc_epoch_day 0 ''all'' ''All'' rounding_sample)))
       (balance_formula (fst (render utc_epoch_day 0 ''all'' ''All'' rounding_sample)))"
proof -
  have "fst (render utc_epoch_day 0 ''all'' ''All'' rounding_sample) = stats rounding_sample"
    by (simp add: render_def)
  moreover have "totalBalance (stats rounding_sample) = dbl 1 (- 55)"
    by (simp add: rounding_sample_stats)
  moreover have "dbl 1 (- 55) \<noteq> dbl 1 (- 54)"
    by (simp add: dbl_54_55 dbl_inj)
  ultimately show ?thesis
    by (simp add: js_eq_def rounding_sample_formula)
qed

subsection \<open>The identity when nothing rounds\<close>

lemma exact_totals_init: "exact_totals j 0 stats_init"
  unfolding exact_totals_def stats_init_def
  by (rule exI[of _ 0], rule exI[of _ 0], rule exI[of _ 0], rule exI[of _ 0], rule exI[of _ 0]) simp

lemma exact_totals_step:
  assumes inv: "exact_totals j M acc"
    and amt: "Number (amount t) = Finite (n * 2 ^ j)"
    and bound: "M + \<bar>n\<bar> < 2 ^ 53" and j: "j \<le> 2045"
  shows "exact_totals j (M + \<bar>n\<bar>) (stats_step acc t)"
proof -
  from inv obtain b i x v w where
    acc: "acc = \<lparr>totalBalance = Finite (b * 2 ^ j), totalIncome = Finite (i * 2 ^ j),
             totalExpense = Finite (x * 2 ^ j), totalInvested = Finite (v * 2 ^ j),
             totalWithdrawn = Finite (w * 2 ^ j)\<rparr>"
    and b: "b = i + w - x - v" and M: "\<bar>i\<bar> + \<bar>x\<bar> + \<bar>v\<bar> + \<bar>w\<bar> \<le> M"
    unfolding exact_totals_def by blast
  have bb: "\<bar>b\<bar> \<le> M" using b M by linarith
  have A: "add (Finite (c * 2 ^ j)) (Finite (n * 2 ^ j)) = Finite ((c + n) * 2 ^ j)"
    if "\<bar>c\<bar> \<le> M" for c
    using that bound j by (intro add_exact) linarith+
  have S: "sub (Finite (c * 2 ^ j)) (Finite (n * 2 ^ j)) = Finite ((c - n) * 2 ^ j)"
    if "\<bar>c\<bar> \<le> M" for c
    using that bound j by (intro sub_exact) linarith+
  have ci: "\<bar>i\<bar> \<le> M" and cx: "\<bar>x\<bar> \<le> M" and cv: "\<bar>v\<bar> \<le> M" and cw: "\<bar>w\<bar> \<le> M"
    using M by linarith+
  consider (inc) "type t = Some ''income''" | (exp) "type t = Some ''expense''"
    | (inv) "type t = Some ''investment''" | (wd) "type t = Some ''withdrawal''"
    | (other) "type t \<noteq> Some ''income''" "type t \<noteq> Some ''expense''"
        "type t \<noteq> Some ''investment''" "type t \<noteq> Some ''withdrawal''"
    by blast
  then show ?thesis
  proof cases
    case inc
    have "stats_step acc t = \<lparr>totalBalance = Finite ((b + n) * 2 ^ j),
        totalIncome = Finite ((i + n) * 2 ^ j), totalExpense = Finite (x * 2 ^ j),
        totalInvested = Finite (v * 2 ^ j), totalWithdrawn = Finite (w * 2 ^ j)\<rparr>"
      by (simp add: stats_step_def inc amt acc A[OF bb] A[OF ci] del: add.simps)
    moreover have "b + n = (i + n) + w - x - v" using b by simp
    moreover have "\<bar>i + n\<bar> + \<bar>x\<bar> + \<bar>v\<bar> + \<bar>w\<bar> \<le> M + \<bar>n\<bar>" using M by linarith
    ultimately show ?thesis unfolding exact_totals_def by blast
  next
    case exp
    have "stats_step acc t = \<lparr>totalBalance = Finite ((b - n) * 2 ^ j),
        totalIncome = Finite (i * 2 ^ j), totalExpense = Finite ((x + n) * 2 ^ j),
        totalInvested = Finite (v * 2 ^ j), totalWithdrawn = Finite (w * 2 ^ j)\<rparr>"
      by (simp add: stats_step_def exp amt acc S[OF bb] A[OF cx] del: add.simps)
    moreover have "b - n = i + w - (x + n) - v" using b by simp
    moreover have "\<bar>i\<bar> + \<bar>x + n\<bar> + \<bar>v\<bar> + \<bar>w\<bar> \<le> M + \<bar>n\<bar>" using M by linarith
    ultimately show ?thesis unfolding exact_totals_def by blast
  next
    case inv
    have "stats_step acc t = \<lparr>totalBalance = Finite ((b - n) * 2 ^ j),
        totalIncome = Finite (i * 2 ^ j), totalExpense = Finite (x * 2 ^ j),
        totalInvested = Finite ((v + n) * 2 ^ j), totalWithdrawn = Finite (w * 2 ^ j)\<rparr>"
      by (simp add: stats_step_def inv amt acc S[OF bb] A[OF cv] del: add.simps)
    moreover have "b - n = i + w - x - (v + n)" using b by simp
    moreover have "\<bar>i\<bar> + \<bar>x\<bar> + \<bar>v + n\<bar> + \<bar>w\<bar> \<le> M + \<bar>n\<bar>" using M by linarith
    ultimately show ?thesis unfolding exact_totals_def by blast
  next
    case wd
    have "stats_step acc t = \<lparr>totalBalance = Finite ((b + n) * 2 ^ j),
        totalIncome = Finite (i * 2 ^ j), totalExpense = Finite (x * 2 ^ j),
        totalInvested = Finite (v * 2 ^ j), totalWithdrawn = Finite ((w + n) * 2 ^ j)\<rparr>"
      by (simp add: stats_step_def wd amt acc A[OF bb] A[OF cw] del: add.simps)
    moreover have "b + n = i + (w + n) - x - v" using b by simp
    moreover have "\<bar>i\<bar> + \<bar>x\<bar> + \<bar>v\<bar> + \<bar>w + n\<bar> \<le> M + \<bar>n\<bar>" using M by linarith
    ultimately show ?thesis unfolding exact_totals_def by blast
  next
    case other
    then have "stats_step acc t = acc" by (simp add: stats_step_def)
    moreover have "\<bar>i\<bar> + \<bar>x\<bar> + \<bar>v\<bar> + \<bar>w\<bar> \<le> M + \<bar>n\<bar>" using M by linarith
    ultimately show ?thesis using acc b unfolding exact_totals_def by blast
  qed
qed

lemma exact_totals_foldl:
  assumes "map (\<lambda>t. Number (amount t)) xs = map (\<lambda>n. Finite (n * 2 ^ j)) ns"
    and "exact_totals j M acc" and "M + sum_list (map abs ns) < 2 ^ 53" and "j \<le> 2045"
  shows "exact_totals j (M + sum_list (map abs ns)) (foldl stats_step acc xs)"
  using assms
proof (induction xs arbitrary: ns acc M)
  case Nil
  then show ?case by simp
next
  case (Cons t xs)
  from Cons.prems(1) obtain n ns' where ns: "ns = n # ns'"
    and t: "Number (amount t) = Finite (n * 2 ^ j)"
    and rest: "map (\<lambda>t. Number (amount t)) xs = map (\<lambda>n. Finite (n * 2 ^ j)) ns'"
    by (cases ns) auto
  have nn: "0 \<le> sum_list (map abs ns')" by (induction ns') auto
  have b1: "M + \<bar>n\<bar> < 2 ^ 53" using Cons.prems(3) ns nn by simp
  have step: "exact_totals j (M + \<bar>n\<bar>) (stats_step acc t)"
    using Cons.prems(2) t b1 Cons.prems(4) by (rule exact_totals_step)
  have b2: "(M + \<bar>n\<bar>) + sum_list (map abs ns') < 2 ^ 53" using Cons.prems(3) ns by simp
  from Cons.IH[OF rest step b2 Cons.prems(4)] show ?case
    by (simp add: ns add.assoc)
qed

lemma exact_totals_balance:
  assumes "exact_totals j M s" "M < 2 ^ 53" "j \<le> 2045"
  shows "js_eq (totalBalance s) (balance_formula s)"
proof -
  from assms(1) obtain b i x v w where
    s: "s = \<lparr>totalBalance = Finite (b * 2 ^ j), totalIncome = Finite (i * 2 ^ j),
             totalExpense = Finite (x * 2 ^ j), totalInvested = Finite (v * 2 ^ j),
             totalWithdrawn = Finite (w * 2 ^ j)\<rparr>"
    and b: "b = i + w - x - v" and M: "\<bar>i\<bar> + \<bar>x\<bar> + \<bar>v\<bar> + \<bar>w\<bar> \<le> M"
    unfolding exact_totals_def by blast
  have 1: "add (Finite (i * 2 ^ j)) (Finite (w * 2 ^ j)) = Finite ((i + w) * 2 ^ j)"
    using M assms(2,3) by (intro add_exact) linarith+
  have 2: "sub (Finite ((i + w) * 2 ^ j)) (Finite (x * 2 ^ j)) = Finite ((i + w - x) * 2 ^ j)"
    using M assms(2,3) by (intro sub_exact) linarith+
  have 3: "sub (Finite ((i + w - x) * 2 ^ j)) (Finite (v * 2 ^ j)) = Finite ((i + w - x - v) * 2 ^ j)"
    using M assms(2,3) by (intro sub_exact) linarith+
  show ?thesis
    by (simp add: s balance_formula_def 1 2 3 b js_eq_def del: add.simps)
qed

lemma filter_amounts:
  fixes ns :: "int list"
  assumes "map f xs = map g ns"
  shows "\<exists>ns'. map f (filter P xs) = map g ns' \<and> sum_list (map abs ns') \<le> sum_list (map abs ns)"
  using assms
proof (induction xs arbitrary: ns)
  case Nil
  then show ?case by simp
next
  case (Cons t xs)
  from Cons.prems obtain n ns0 where ns: "ns = n # ns0" and t: "f t = g n"
    and rest: "map f xs = map g ns0"
    by (cases ns) auto
  from Cons.IH[OF rest] obtain ns1 where
    1: "map f (filter P xs) = map g ns1" and 2: "sum_list (map abs ns1) \<le> sum_list (map abs ns0)"
    by blast
  show ?case
  proof (cases "P t")
    case True
    then have "map f (filter P (t # xs)) = map g (n # ns1)" using 1 t by simp
    moreover have "sum_list (map abs (n # ns1)) \<le> sum_list (map abs ns)" using 2 ns by simp
    ultimately show ?thesis by blast
  next
    case False
    then have "map f (filter P (t # xs)) = map g ns1" using 1 by simp
    moreover have "sum_list (map abs ns1) \<le> sum_list (map abs ns)" using 2 ns by simp
    ultimately show ?thesis by blast
  qed
qed

text \<open>
  C2, amended. When the amounts of the list are integer multiples \<open>n * 2\<^sup>e\<close> of one power
  of two (whole amounts for \<open>e = 0\<close>, halves for \<open>e = -1\<close>) and the absolute values of the
  \<open>n\<close> sum to less than \<open>2\<^sup>5\<^sup>3\<close>, then for every time range the totals satisfy
  \<open>totalBalance == totalIncome + totalWithdrawn - totalExpense - totalInvested\<close>.
\<close>

theorem balance_identity_exact:
  assumes amounts: "map (\<lambda>t. Number (amount t)) xs = map (\<lambda>n. dbl n e) ns"
    and e: "- 1074 \<le> e" "e \<le> 971"
    and total: "sum_list (map abs ns) < 2 ^ 53"
  shows "js_eq (totalBalance (fst (render newDate nowMs timeRange filterCategory xs)))
           (balance_formula (fst (render newDate nowMs timeRange filterCategory xs)))"
proof -
  let ?j = "nat (e + 1074)"
  have j: "?j \<le> 2045" using e by simp
  let ?tf = "timeFilteredExpenses newDate nowMs timeRange xs"
  obtain P where tf: "?tf = filter P xs"
    by (simp add: timeFilteredExpenses_def Let_def)
  from amounts have "map (\<lambda>t. Number (amount t)) xs = map (\<lambda>n. Finite (n * 2 ^ ?j)) ns"
    by (simp add: dbl_def)
  from filter_amounts[OF this, of P] obtain ns' where
    1: "map (\<lambda>t. Number (amount t)) ?tf = map (\<lambda>n. Finite (n * 2 ^ ?j)) ns'"
    and 2: "sum_list (map abs ns') \<le> sum_list (map abs ns)"
    unfolding tf by blast
  have 3: "0 + sum_list (map abs ns') < 2 ^ 53" using 2 total by simp
  have "exact_totals ?j (0 + sum_list (map abs ns')) (stats ?tf)"
    unfolding stats_def using 1 exact_totals_init 3 j by (rule exact_totals_foldl)
  then have "js_eq (totalBalance (stats ?tf)) (balance_formula (stats ?tf))"
    using 3 j by (rule exact_totals_balance)
  then show ?thesis by (simp add: render_def Let_def)
qed

theorem balance_identity_exact_witness:
  "map (\<lambda>t. Number (amount t)) coffee_paycheck = map (\<lambda>n. dbl n (- 1)) [9, 4000]
   \<and> - 1074 \<le> (- 1 :: int) \<and> (- 1 :: int) \<le> 971
   \<and> sum_list (map abs [9, 4000 :: int]) < 2 ^ 53
   \<and> js_eq (totalBalance (fst (render utc_epoch_day 0 ''monthly'' ''All'' coffee_paycheck)))
       (balance_formula (fst (render utc_epoch_day 0 ''monthly'' ''All'' coffee_paycheck)))"
proof -
  have a: "map (\<lambda>t. Number (amount t)) coffee_paycheck = map (\<lambda>n. dbl n (- 1)) [9, 4000]"
    by (simp add: coffee_paycheck_def sample_tx_def Number_def)
  have s: "sum_list (map abs [9, 4000 :: int]) < 2 ^ 53" by simp
  have e: "- 1074 \<le> (- 1 :: int)" "(- 1 :: int) \<le> 971" by simp_all
  from balance_identity_exact [OF a e s, of utc_epoch_day 0 "''monthly''" "''All''"] a e s
  show ?thesis by blast
qed

text \<open>The scenario of the coffee and the paycheck: the balance is \<open>1995.5 = 3991 * 2\<^sup>-\<^sup>1\<close>.\<close>

lemma coffee_paycheck_balance: "totalBalance (stats coffee_paycheck) = dbl 3991 (- 1)"
proof -
  have 1: "sub (Finite 0) (dbl 9 (- 1)) = dbl (- 9) (- 1)"
    using sub_dbl_exact [of 0 9 "- 1"] by (simp add: dbl_zero)
  have 2: "add (dbl (- 9) (- 1)) (dbl 4000 (- 1)) = dbl 3991 (- 1)"
    using add_dbl_exact [of "- 9" 4000 "- 1"] by simp
  show ?thesis
    by (simp add: stats_def stats_init_def stats_step_def coffee_paycheck_def sample_tx_def
        Number_def Let_def 1 2 del: add.simps)
qed

section \<open>Properties of the transaction API\<close>

subsection \<open>The request gate\<close>

lemma authMiddleware_pass:
  "token \<noteq> [] \<Longrightarrow> verify token = Some user \<Longrightarrow>
     authMiddleware verify (Some token) next st = next user st"
  by (simp add: authMiddleware_def)

text \<open>
  C5 as stated fails: a token that \<open>jwt.verify\<close> refuses is answered with status 400, not
  401. Here the token of no user, on the list route.
\<close>

theorem invalid_token_status_counterexample:
  "status_of (fst (GET_api_expenses sample_verify (Some ''tampered'') sample_store)) = Some 400
   \<and> status_of (fst (GET_api_expenses sample_verify (Some ''tampered'') sample_store)) \<noteq> Some 401"
  by (simp add: GET_api_expenses_def authMiddleware_def sample_verify_def json_def status_of_def)

text \<open>
  C5, amended. A request without a token (no header, or an empty one) is answered with
  status 401 and the error body \<open>Access Denied\<close>; a request whose token \<open>jwt.verify\<close>
  refuses (bad signature, malformed, expired) is answered with status 400 and the error
  body \<open>Invalid Token\<close>. In both cases the answer and the state are the same for every
  protected handler \<open>next\<close>: the handler is not run.
\<close>

theorem auth_rejects:
  "((hdr = None \<or> hdr = Some []) \<longrightarrow>
      authMiddleware verify hdr next st = (json 401 (ErrorBody ''Access Denied''), st))
   \<and> (token \<noteq> [] \<and> verify token = None \<longrightarrow>
      authMiddleware verify (Some token) next st = (json 400 (ErrorBody ''Invalid Token''), st))"
  by (auto simp: authMiddleware_def)

theorem auth_rejects_witness:
  "authMiddleware sample_verify None (expenses_delete ''000000000000000000000065'') sample_store =
     (json 401 (ErrorBody ''Access Denied''), sample_store)
   \<and> ''expired'' \<noteq> [] \<and> sample_verify ''expired'' = None
   \<and> authMiddleware sample_verify (Some ''expired'')
       (expenses_delete ''000000000000000000000065'') sample_store =
     (json 400 (ErrorBody ''Invalid Token''), sample_store)"
  using auth_rejects [of None sample_verify "expenses_delete ''000000000000000000000065''"
      sample_store "''expired''"]
  by (simp add: sample_verify_def)

subsection \<open>Listing\<close>

lemma sorted_sort_date_desc: "sorted_wrt (\<lambda>a b. date b \<le> date a) (sort_date_desc es)"
proof -
  have "sorted (map (\<lambda>e. - date e) (sort_date_desc es))"
    by (simp add: sort_date_desc_def)
  then show ?thesis
    by (simp add: sorted_wrt_map sorted_wrt_iff_nth_less sorted_iff_nth_mono_less)
qed

lemma mset_sort_date_desc: "mset (sort_date_desc es) = mset es"
  by (simp add: sort_date_desc_def)

text \<open>
  C1. For an authenticated caller the list route answers 200 with a list that holds
  exactly the stored transactions whose \<open>userId\<close> is the caller's id (as a multiset: each
  as often as it is stored), ordered by \<open>date\<close> descending; no transaction of another
  user is in it, and the store is left as it was.
\<close>

theorem list_returns_own_sorted:
  assumes "token \<noteq> []" "verify token = Some user"
  shows "GET_api_expenses verify (Some token) st =
           (json 200 (ExpenseList (sort_date_desc (find_by_user user st))), st)
       \<and> mset (sort_date_desc (find_by_user user st)) =
           filter_mset (\<lambda>e. userId e = user) (mset st)
       \<and> sorted_wrt (\<lambda>a b. date b \<le> date a) (sort_date_desc (find_by_user user st))
       \<and> (\<forall>e \<in> set (sort_date_desc (find_by_user user st)). userId e = user)"
proof -
  have "GET_api_expenses verify (Some token) st =
      (json 200 (ExpenseList (sort_date_desc (find_by_user user st))), st)"
    using assms by (simp add: GET_api_expenses_def authMiddleware_pass expenses_get_def)
  moreover have "mset (sort_date_desc (find_by_user user st)) =
      filter_mset (\<lambda>e. userId e = user) (mset st)"
    by (simp add: mset_sort_date_desc find_by_user_def)
  moreover have "\<forall>e \<in> set (sort_date_desc (find_by_user user st)). userId e = user"
    by (simp add: sort_date_desc_def find_by_user_def)
  ultimately show ?thesis
    using sorted_sort_date_desc by blast
qed

theorem list_returns_own_sorted_witness:
  "''token-u1'' \<noteq> [] \<and> sample_verify ''token-u1'' = Some (ObjectId 11)
   \<and> GET_api_expenses sample_verify (Some ''token-u1'') sample_store =
       (json 200 (ExpenseList [sample_doc 103 11 300, sample_doc 101 11 100]), sample_store)"
proof -
  have v: "sample_verify ''token-u1'' = Some (ObjectId 11)" by (simp add: sample_verify_def)
  have l: "sort_date_desc (find_by_user (ObjectId 11) sample_store) =
      [sample_doc 103 11 300, sample_doc 101 11 100]"
    by (simp add: sort_date_desc_def find_by_user_def sample_store_def sample_doc_def)
  show ?thesis
    using list_returns_own_sorted [of "''token-u1''" sample_verify "ObjectId 11" sample_store]
    by (simp add: v l)
qed

subsection \<open>Creating\<close>

lemma expenses_post_cases:
  "expenses_post toNumber now newId b user st =
     (case newExpense toNumber now newId user b of
        None \<Rightarrow> (Inl ValidationError, st)
      | Some d \<Rightarrow>
          if oid d \<in> oid ` set st then (Inl DuplicateKey, st)
          else (json 200 (ExpenseDoc d), st @ [d]))"
  by (simp add: expenses_post_def save_def split: option.splits)

lemma newExpense_userId: "newExpense toNumber now newId user b = Some d \<Longrightarrow> userId d = user"
  by (auto simp: newExpense_def split: option.splits)

lemma newExpense_ignores_body_userId:
  "newExpense toNumber now newId user (b\<lparr>body_userId := other\<rparr>) =
     newExpense toNumber now newId user b"
  by (cases "castNumber toNumber (body_amount b)") (simp_all add: newExpense_def)

lemma newExpense_oid: "newExpense toNumber now newId user b = Some d \<Longrightarrow> oid d = newId"
  by (auto simp: newExpense_def split: option.splits)

text \<open>
  C7. For an authenticated caller, a fresh id and a body that passes validation, the create
  route stores one document, whose \<open>userId\<close> is the caller's id whatever \<open>userId\<close> the body
  carries, and answers with it. And for every body \<open>b'\<close>, valid or not: every document in
  the collection after the request that was not in it before has the caller's id as
  \<open>userId\<close>.
\<close>

theorem create_stamps_owner:
  assumes "token \<noteq> []" "verify token = Some user" "newId \<notin> oid ` set st"
    and "newExpense toNumber now newId user b = Some d"
  shows "POST_api_expenses verify toNumber now newId (Some token) b st =
           (json 200 (ExpenseDoc d), st @ [d])
       \<and> userId d = user
       \<and> newExpense toNumber now newId user (b\<lparr>body_userId := other\<rparr>) = Some d
       \<and> (\<forall>e \<in> set (snd (POST_api_expenses verify toNumber now newId (Some token) b' st)).
             e \<in> set st \<or> userId e = user)"
proof -
  have route: "POST_api_expenses verify toNumber now newId (Some token) c st =
      expenses_post toNumber now newId c user st" for c
    using assms(1,2) by (simp add: POST_api_expenses_def authMiddleware_pass)
  have "oid d = newId" using assms(4) by (rule newExpense_oid)
  with assms(3,4) have "POST_api_expenses verify toNumber now newId (Some token) b st =
      (json 200 (ExpenseDoc d), st @ [d])"
    by (simp add: route expenses_post_cases)
  moreover have "userId d = user" using assms(4) by (rule newExpense_userId)
  moreover have "newExpense toNumber now newId user (b\<lparr>body_userId := other\<rparr>) = Some d"
    using assms(4) by (simp add: newExpense_ignores_body_userId)
  moreover have "\<forall>e \<in> set (snd (expenses_post toNumber now newId b' user st)).
      e \<in> set st \<or> userId e = user"
    by (auto simp: expenses_post_cases dest: newExpense_userId split: option.splits)
  ultimately show ?thesis by (simp add: route)
qed

theorem create_stamps_owner_witness:
  "''token-u1'' \<noteq> [] \<and> sample_verify ''token-u1'' = Some (ObjectId 11)
   \<and> ObjectId 109 \<notin> oid ` set sample_store
   \<and> body_userId sample_body = Some (JStr ''00000000000000000000000c'')
   \<and> newExpense sample_toNumber 1000 (ObjectId 109) (ObjectId 11) sample_body =
       Some \<lparr>title = None, amount = Absent, type = Some ''expense'', category = Some ''Food'',
             oid = ObjectId 109, userId = ObjectId 11, date = 1000\<rparr>
   \<and> POST_api_expenses sample_verify sample_toNumber 1000 (ObjectId 109) (Some ''token-u1'')
         sample_body sample_store =
       (json 200 (ExpenseDoc \<lparr>title = None, amount = Absent, type = Some ''expense'',
           category = Some ''Food'', oid = ObjectId 109, userId = ObjectId 11, date = 1000\<rparr>),
        sample_store @ [\<lparr>title = None, amount = Absent, type = Some ''expense'',
           category = Some ''Food'', oid = ObjectId 109, userId = ObjectId 11, date = 1000\<rparr>])"
proof -
  let ?d = "\<lparr>title = None, amount = Absent, type = Some ''expense'', category = Some ''Food'',
      oid = ObjectId 109, userId = ObjectId 11, date = 1000\<rparr>"
  have ne: "''token-u1'' \<noteq> []" by simp
  have v: "sample_verify ''token-u1'' = Some (ObjectId 11)" by (simp add: sample_verify_def)
  have f: "ObjectId 109 \<notin> oid ` set sample_store"
    by (simp add: sample_store_def sample_doc_def)
  have u: "body_userId sample_body = Some (JStr ''00000000000000000000000c'')"
    by (simp add: sample_body_def)
  have d: "newExpense sample_toNumber 1000 (ObjectId 109) (ObjectId 11) sample_body = Some ?d"
    by (simp add: newExpense_def castNumber_def sample_body_def)
  from create_stamps_owner [of "''token-u1''" sample_verify "ObjectId 11" "ObjectId 109"
      sample_store sample_toNumber 1000 sample_body ?d] ne v f d
  have "POST_api_expenses sample_verify sample_toNumber 1000 (ObjectId 109) (Some ''token-u1'')
      sample_body sample_store = (json 200 (ExpenseDoc ?d), sample_store @ [?d])"
    by blast
  with ne v f u d show ?thesis by blast
qed

text \<open>
  A body whose amount is there and is not numeric is refused by \<open>save()\<close> with a
  \<open>ValidationError\<close>: no response is sent and no record is created.
\<close>

lemma create_rejects_non_numeric_amount:
  assumes "token \<noteq> []" "verify token = Some user"
    and "castNumber toNumber (body_amount b) = None"
  shows "POST_api_expenses verify toNumber now newId (Some token) b st =
           (Inl ValidationError, st)"
  using assms
  by (simp add: POST_api_expenses_def authMiddleware_pass expenses_post_cases newExpense_def)

lemma create_rejects_abc:
  "POST_api_expenses sample_verify sample_toNumber 1000 (ObjectId 109) (Some ''token-u1'')
     (sample_body\<lparr>body_title := Some ''Coffee'', body_amount := Some (JStr ''abc'')\<rparr>)
     sample_store = (Inl ValidationError, sample_store)"
proof -
  have "castNumber sample_toNumber (Some (JStr ''abc'')) = None"
    by (simp add: castNumber_def sample_toNumber_def)
  then show ?thesis
    using create_rejects_non_numeric_amount [of "''token-u1''" sample_verify "ObjectId 11"
        sample_toNumber "sample_body\<lparr>body_title := Some ''Coffee'',
          body_amount := Some (JStr ''abc'')\<rparr>" 1000 "ObjectId 109" sample_store]
    by (simp add: sample_verify_def)
qed

text \<open>Whenever a create request is not answered with status 200, no record is created.\<close>

lemma failed_create_stores_nothing:
  "\<not> is_ok (fst (POST_api_expenses verify toNumber now newId hdr b st)) \<Longrightarrow>
     snd (POST_api_expenses verify toNumber now newId hdr b st) = st"
  by (auto simp: POST_api_expenses_def authMiddleware_def expenses_post_cases is_ok_def json_def
      split: option.splits if_splits)

text \<open>
  C4. The claim does not hold of the create route: the schema that \<^verbatim>\<open>server.js\<close> declares
  requires neither \<open>title\<close> nor \<open>amount\<close>, so a body without them passes validation, is
  stored and is answered with status 200. Here the route at such a body, for the caller
  \<open>u1\<close> and an empty collection.
\<close>

theorem create_without_title_stored:
  "body_title sample_body = None \<and> body_amount sample_body = None
   \<and> POST_api_expenses sample_verify sample_toNumber 1000 (ObjectId 109) (Some ''token-u1'')
         sample_body [] =
       (json 200 (ExpenseDoc \<lparr>title = None, amount = Absent, type = Some ''expense'',
           category = Some ''Food'', oid = ObjectId 109, userId = ObjectId 11, date = 1000\<rparr>),
        [\<lparr>title = None, amount = Absent, type = Some ''expense'', category = Some ''Food'',
          oid = ObjectId 109, userId = ObjectId 11, date = 1000\<rparr>])"
  by (simp add: POST_api_expenses_def authMiddleware_def sample_verify_def expenses_post_def
      save_def newExpense_def castNumber_def sample_body_def)

subsection \<open>Deleting\<close>


lemma filter_oid_absent: "i \<notin> oid ` set st \<Longrightarrow> filter (\<lambda>e. oid e \<noteq> i) st = st"
  by (induction st) auto

lemma remove_by_id_filter:
  "unique_ids st \<Longrightarrow> remove_by_id i st = filter (\<lambda>e. oid e \<noteq> i) st"
proof (induction st)
  case Nil
  then show ?case by simp
next
  case (Cons e es)
  then have u: "unique_ids es" and n: "oid e \<notin> oid ` set es"
    by (simp_all add: unique_ids_def)
  show ?case
  proof (cases "oid e = i")
    case True
    with n show ?thesis by (simp add: filter_oid_absent)
  next
    case False
    with Cons.IH u show ?thesis by simp
  qed
qed

text \<open>The routes keep the ids of the collection unique.\<close>

lemma unique_ids_empty: "unique_ids []"
  by (simp add: unique_ids_def)

lemma unique_ids_save: "unique_ids st \<Longrightarrow> unique_ids (snd (save doc st))"
  by (auto simp: save_def unique_ids_def split: option.splits)

lemma unique_ids_delete: "unique_ids st \<Longrightarrow> unique_ids (snd (findByIdAndDelete param st))"
  by (auto simp: findByIdAndDelete_def remove_by_id_filter unique_ids_def distinct_map_filter
      split: option.splits)





end
